theory Spec2Isabelle
  imports Complex_Main "HOL-Library.Product_Lexorder"
begin

section \<open>Python strings\<close>

text \<open>
  Source text is modelled as \<open>string\<close>; a \<open>char\<close> stands for a code point below 256.
  Python integers are \<open>int\<close>.  Exceptions are values of \<open>py_exception\<close>; a function
  that can raise returns \<open>py_exception + 'a\<close> with \<open>Inl\<close> for the raised exception.
\<close>

datatype py_exception = IndexError | ValueError | AttributeError | CollaboratorError string

definition newline :: char where
  "newline = CHR 0x0A"

text \<open>\<open>s.split('\n')\<close>: the result is never empty, \<open>''.split('\n') == ['']\<close>.\<close>

fun cons_first :: "char \<Rightarrow> string list \<Rightarrow> string list" where
  "cons_first c [] = [[c]]"
| "cons_first c (l # ls) = (c # l) # ls"

fun split_nl :: "string \<Rightarrow> string list" where
  "split_nl [] = [[]]"
| "split_nl (c # cs) =
     (if c = newline then [] # split_nl cs else cons_first c (split_nl cs))"


text \<open>\<open>s.startswith(p)\<close>.\<close>

definition startswith :: "string \<Rightarrow> string \<Rightarrow> bool" where
  "startswith s p = (take (length p) s = p)"

text \<open>The rest of \<open>s\<close> after the literal prefix \<open>p\<close>, if \<open>s\<close> starts with it.\<close>

definition strip_prefix :: "string \<Rightarrow> string \<Rightarrow> string option" where
  "strip_prefix p s = (if startswith s p then Some (drop (length p) s) else None)"

text \<open>\<open>sub in s\<close>.\<close>

fun contains :: "string \<Rightarrow> string \<Rightarrow> bool" where
  "contains sub [] = (sub = [])"
| "contains sub (c # cs) = (if startswith (c # cs) sub then True else contains sub cs)"

text \<open>
  \<open>str.isspace\<close> on one character (also the class \<open>\s\<close> of \<open>re\<close> on \<open>str\<close>), for code
  points below 256: TAB, LF, VT, FF, CR, FS, GS, RS, US, space, NEL, NBSP.
\<close>

definition is_space :: "char \<Rightarrow> bool" where
  "is_space c = ((of_char c :: nat) \<in> {9, 10, 11, 12, 13, 28, 29, 30, 31, 32, 133, 160})"

text \<open>\<open>s.strip()\<close>.\<close>

definition strip :: "string \<Rightarrow> string" where
  "strip s = rev (dropWhile is_space (rev (dropWhile is_space s)))"

definition is_digit :: "char \<Rightarrow> bool" where
  "is_digit c = (c \<in> set ''0123456789'')"

text \<open>\<open>int(ds)\<close> on a string of ASCII digits.\<close>

definition int_of_digits :: "string \<Rightarrow> int" where
  "int_of_digits ds = foldl (\<lambda>n c. 10 * n + (int (of_char c) - 48)) 0 ds"

section \<open>Diff parser (utils/diff\_analyzer.py)\<close>

record DiffChunk =
  file_path :: string
  old_start :: int
  old_count :: int
  new_start :: int
  new_count :: int
  added_lines :: "(int \<times> string) list"
  removed_lines :: "(int \<times> string) list"
  context_lines :: "(int \<times> string) list"

text \<open>
  \<open>new_file_pattern = ^\+\+\+ b/(.*)$\<close>, applied with \<open>match\<close>: the line starts with
  \<open>+++ b/\<close>; group 1 is the rest, which \<open>.\<close> stops at a newline and \<open>$\<close> lets end
  at the end of the string or before a final newline.
\<close>

definition new_file_match :: "string \<Rightarrow> string option" where
  "new_file_match line =
     (case strip_prefix ''+++ b/'' line of
        None \<Rightarrow> None
      | Some r \<Rightarrow>
          (let g = takeWhile (\<lambda>c. c \<noteq> newline) r;
               rest = dropWhile (\<lambda>c. c \<noteq> newline) r
           in if rest = [] \<or> rest = [newline] then Some g else None))"

text \<open>
  One range of a hunk header, \<open>(\d+)(?:,(\d+))?\<close>: the digits, then the optional count.
  Both groups are greedy and what follows a range in the header is a space, so the
  only way the whole pattern can match is with the longest run of digits in each group,
  and with the optional group taken whenever a comma and a digit follow.
\<close>

definition parse_range :: "string \<Rightarrow> ((string \<times> string option) \<times> string) option" where
  "parse_range s =
     (let a = takeWhile is_digit s; r = dropWhile is_digit s
      in if a = [] then None
         else (case r of
                 [] \<Rightarrow> Some ((a, None), r)
               | c # r' \<Rightarrow>
                   if c = CHR '','' \<and> takeWhile is_digit r' \<noteq> []
                   then Some ((a, Some (takeWhile is_digit r')), dropWhile is_digit r')
                   else Some ((a, None), r)))"

text \<open>
  \<open>chunk_header_pattern = ^@@ -(\d+)(?:,(\d+))? \+(\d+)(?:,(\d+))? @@\<close>, applied with
  \<open>match\<close>; the result holds groups 1 to 4.
\<close>

definition chunk_header_match ::
  "string \<Rightarrow> (string \<times> string option \<times> string \<times> string option) option" where
  "chunk_header_match line =
     (case strip_prefix ''@@ -'' line of
        None \<Rightarrow> None
      | Some r1 \<Rightarrow>
     (case parse_range r1 of
        None \<Rightarrow> None
      | Some ((g1, g2), r2) \<Rightarrow>
     (case strip_prefix '' +'' r2 of
        None \<Rightarrow> None
      | Some r3 \<Rightarrow>
     (case parse_range r3 of
        None \<Rightarrow> None
      | Some ((g3, g4), r4) \<Rightarrow>
          if startswith r4 '' @@'' then Some (g1, g2, g3, g4) else None))))"

text \<open>The local variables of \<open>parse_diff\<close>.\<close>

record parse_state =
  chunks :: "DiffChunk list"
  current_file :: "string option"
  current_chunk :: "DiffChunk option"
  old_line :: int
  new_line :: int

definition init_state :: parse_state where
  "init_state =
     \<lparr>chunks = [], current_file = None, current_chunk = None, old_line = 0, new_line = 0\<rparr>"

text \<open>\<open>if current_chunk: chunks.append(current_chunk)\<close>.\<close>

definition close_chunk :: "parse_state \<Rightarrow> DiffChunk list" where
  "close_chunk st =
     (case current_chunk st of None \<Rightarrow> chunks st | Some c \<Rightarrow> chunks st @ [c])"

text \<open>One iteration of the loop of \<open>parse_diff\<close> over the lines.\<close>

definition parse_line :: "parse_state \<Rightarrow> string \<Rightarrow> parse_state" where
  "parse_line st line =
     (case new_file_match line of
        Some p \<Rightarrow> st\<lparr>current_file := Some p\<rparr>
      | None \<Rightarrow>
     (case chunk_header_match line of
        Some (g1, g2, g3, g4) \<Rightarrow>
          (let old_start' = int_of_digits g1;
               old_count' = (case g2 of Some d \<Rightarrow> int_of_digits d | None \<Rightarrow> 1);
               new_start' = int_of_digits g3;
               new_count' = (case g4 of Some d \<Rightarrow> int_of_digits d | None \<Rightarrow> 1)
           in st\<lparr>chunks := close_chunk st,
                 current_chunk := Some
                   \<lparr>file_path = (case current_file st of Some f \<Rightarrow> f | None \<Rightarrow> []),
                    old_start = old_start', old_count = old_count',
                    new_start = new_start', new_count = new_count',
                    added_lines = [], removed_lines = [], context_lines = []\<rparr>,
                 old_line := old_start', new_line := new_start'\<rparr>)
      | None \<Rightarrow>
     (case current_chunk st of
        None \<Rightarrow> st
      | Some c \<Rightarrow>
          if startswith line ''+'' \<and> \<not> startswith line ''+++'' then
            st\<lparr>current_chunk := Some (c\<lparr>added_lines := added_lines c @ [(new_line st, drop 1 line)]\<rparr>),
               new_line := new_line st + 1\<rparr>
          else if startswith line ''-'' \<and> \<not> startswith line ''---'' then
            st\<lparr>current_chunk := Some (c\<lparr>removed_lines := removed_lines c @ [(old_line st, drop 1 line)]\<rparr>),
               old_line := old_line st + 1\<rparr>
          else if startswith line '' '' then
            st\<lparr>current_chunk := Some (c\<lparr>context_lines := context_lines c @ [(new_line st, drop 1 line)]\<rparr>),
               old_line := old_line st + 1,
               new_line := new_line st + 1\<rparr>
          else st)))"





section \<open>Regular expressions (module re)\<close>

text \<open>\<open>str.lower\<close> and \<open>str.upper\<close> on one character, for code points below 256.\<close>

definition lower_char :: "char \<Rightarrow> char" where
  "lower_char c =
     (let n = (of_char c :: nat)
      in if (65 \<le> n \<and> n \<le> 90) \<or> (192 \<le> n \<and> n \<le> 214) \<or> (216 \<le> n \<and> n \<le> 222)
         then char_of (n + 32) else c)"

definition upper_char :: "char \<Rightarrow> char" where
  "upper_char c =
     (let n = (of_char c :: nat)
      in if (97 \<le> n \<and> n \<le> 122) \<or> (224 \<le> n \<and> n \<le> 246) \<or> (248 \<le> n \<and> n \<le> 254)
         then char_of (n - 32) else c)"

definition lower :: "string \<Rightarrow> string" where
  "lower s = map lower_char s"

text \<open>The class \<open>\w\<close> on \<open>str\<close>, for code points below 256.\<close>

definition is_word :: "char \<Rightarrow> bool" where
  "is_word c =
     (let n = (of_char c :: nat)
      in (48 \<le> n \<and> n \<le> 57) \<or> (65 \<le> n \<and> n \<le> 90) \<or> n = 95 \<or> (97 \<le> n \<and> n \<le> 122) \<or>
         n = 170 \<or> n = 178 \<or> n = 179 \<or> n = 181 \<or> n = 185 \<or> n = 186 \<or>
         (188 \<le> n \<and> n \<le> 190) \<or> (192 \<le> n \<and> n \<le> 214) \<or> (216 \<le> n \<and> n \<le> 246) \<or>
         (248 \<le> n \<and> n \<le> 255))"

text \<open>
  The patterns of the detector use literals, character classes, concatenation,
  alternation and repetition (groups capture nothing that is read; a lazy repetition
  matches the same strings as a greedy one).  \<open>Atom neg p\<close> is one character of the class
  \<open>p\<close>, or one outside it when \<open>neg\<close> is set.
\<close>

datatype rx = Never | Eps | Atom bool "char \<Rightarrow> bool" | Cat rx rx | Alt rx rx | Star rx

definition atom_matches :: "bool \<Rightarrow> (char \<Rightarrow> bool) \<Rightarrow> char \<Rightarrow> bool" where
  "atom_matches neg p c = (if neg then \<not> p c else p c)"

text \<open>The pattern matches the empty string.\<close>

fun nullable :: "rx \<Rightarrow> bool" where
  "nullable Never = False"
| "nullable Eps = True"
| "nullable (Atom neg p) = False"
| "nullable (Cat r s) = (nullable r \<and> nullable s)"
| "nullable (Alt r s) = (nullable r \<or> nullable s)"
| "nullable (Star r) = True"

text \<open>What is left of the pattern after it has read the character \<open>c\<close>.\<close>

fun rx_deriv :: "char \<Rightarrow> rx \<Rightarrow> rx" where
  "rx_deriv c Never = Never"
| "rx_deriv c Eps = Never"
| "rx_deriv c (Atom neg p) = (if atom_matches neg p c then Eps else Never)"
| "rx_deriv c (Cat r s) =
     (if nullable r then Alt (Cat (rx_deriv c r) s) (rx_deriv c s) else Cat (rx_deriv c r) s)"
| "rx_deriv c (Alt r s) = Alt (rx_deriv c r) (rx_deriv c s)"
| "rx_deriv c (Star r) = Cat (rx_deriv c r) (Star r)"

text \<open>\<open>re.match(r, s) is not None\<close>: the pattern matches at the start of \<open>s\<close>.\<close>

fun re_match :: "rx \<Rightarrow> string \<Rightarrow> bool" where
  "re_match r [] = nullable r"
| "re_match r (c # cs) = (if nullable r then True else re_match (rx_deriv c r) cs)"

text \<open>\<open>re.search(r, s) is not None\<close>: the pattern matches at some position of \<open>s\<close>.\<close>

fun re_search :: "rx \<Rightarrow> string \<Rightarrow> bool" where
  "re_search r [] = nullable r"
| "re_search r (c # cs) = (if re_match r (c # cs) then True else re_search r cs)"

text \<open>
  \<open>\b\<close> holds between two neighbours of which exactly one is a word character; the
  start and the end of the string count as non-word characters.
\<close>

definition word_boundary :: "char option \<Rightarrow> char option \<Rightarrow> bool" where
  "word_boundary prev nxt =
     ((case prev of None \<Rightarrow> False | Some c \<Rightarrow> is_word c) \<noteq>
      (case nxt of None \<Rightarrow> False | Some c \<Rightarrow> is_word c))"

text \<open>\<open>re.search\<close> for the pattern \<open>\b\<close> followed by \<open>r\<close>; \<open>prev\<close> is the character before \<open>s\<close>.\<close>

fun re_search_b_from :: "rx \<Rightarrow> char option \<Rightarrow> string \<Rightarrow> bool" where
  "re_search_b_from r prev [] = (word_boundary prev None \<and> nullable r)"
| "re_search_b_from r prev (c # cs) =
     (if word_boundary prev (Some c) \<and> re_match r (c # cs) then True
      else re_search_b_from r (Some c) cs)"

definition re_search_b :: "rx \<Rightarrow> string \<Rightarrow> bool" where
  "re_search_b r s = re_search_b_from r None s"

text \<open>
  The flag \<open>re.IGNORECASE\<close>: a character is in a class when one of its case variants
  is.
\<close>

fun ignorecase :: "rx \<Rightarrow> rx" where
  "ignorecase Never = Never"
| "ignorecase Eps = Eps"
| "ignorecase (Atom neg p) = Atom neg (\<lambda>x. p x \<or> p (lower_char x) \<or> p (upper_char x))"
| "ignorecase (Cat r s) = Cat (ignorecase r) (ignorecase s)"
| "ignorecase (Alt r s) = Alt (ignorecase r) (ignorecase s)"
| "ignorecase (Star r) = Star (ignorecase r)"

text \<open>The notation of patterns.\<close>

definition lit :: "char \<Rightarrow> rx" where
  "lit c = Atom False (\<lambda>x. x = c)"

fun str :: "string \<Rightarrow> rx" where
  "str [] = Eps"
| "str [c] = lit c"
| "str (c # cs) = Cat (lit c) (str cs)"

definition one_of :: "string \<Rightarrow> rx" where
  "one_of cs = Atom False (\<lambda>x. x \<in> set cs)"

definition none_of :: "string \<Rightarrow> rx" where
  "none_of cs = Atom True (\<lambda>x. x \<in> set cs)"

definition any_char :: rx where
  "any_char = Atom True (\<lambda>x. x = newline)"

definition space_class :: rx where
  "space_class = Atom False is_space"

definition word_class :: rx where
  "word_class = Atom False is_word"

definition plus :: "rx \<Rightarrow> rx" where
  "plus r = Cat r (Star r)"

definition opt :: "rx \<Rightarrow> rx" where
  "opt r = Alt r Eps"

fun seq :: "rx list \<Rightarrow> rx" where
  "seq [] = Eps"
| "seq [r] = r"
| "seq (r # rs) = Cat r (seq rs)"

text \<open>The characters \<open>"\<close> and \<open>'\<close>.\<close>

definition quotes :: string where
  "quotes = [CHR 0x22, CHR 0x27]"

section \<open>Pattern detector (app/services/pattern\_detector.py)\<close>

text \<open>The confidence of a match is the rational its decimal literal denotes.\<close>

record PatternMatch =
  pattern_type :: string
  severity :: string
  message :: string
  line_number :: int
  code_snippet :: string
  confidence :: rat

text \<open>An entry of the rule table: the keys \<open>'severity'\<close> and \<open>'patterns'\<close>.\<close>

record pattern_config =
  cfg_severity :: string
  cfg_patterns :: "(rx \<times> string) list"

text \<open>\<open>key\s*=\s*["\']([^"\']+)["\']\<close> after the name of a credential.\<close>

definition assigned_literal :: "rx list" where
  "assigned_literal =
     [Star space_class, lit (CHR ''=''), Star space_class,
      one_of quotes, plus (none_of quotes), one_of quotes]"

text \<open>\<open>_load_patterns\<close>: the rule table, a dictionary in the order of its source.\<close>

definition load_patterns :: "(string \<times> pattern_config) list" where
  "load_patterns =
     [(''hardcoded_credentials'',
       \<lparr>cfg_severity = ''critical'',
        cfg_patterns =
          [(seq (str ''password'' # assigned_literal), ''Hardcoded password''),
           (seq (str ''api'' # opt (one_of ''_-'') # str ''key'' # assigned_literal),
            ''Hardcoded API key''),
           (seq (str ''secret'' # assigned_literal), ''Hardcoded secret''),
           (seq (str ''token'' # assigned_literal), ''Hardcoded token'')]\<rparr>),
      (''sql_injection'',
       \<lparr>cfg_severity = ''critical'',
        cfg_patterns =
          [(seq [str ''execute'', lit (CHR ''(''), one_of quotes, Star any_char,
                 lit (CHR ''+''), Star any_char, one_of quotes],
            ''Potential SQL injection''),
           (seq [str ''query'', lit (CHR ''(''), one_of quotes, Star any_char,
                 lit (CHR ''+''), Star any_char, one_of quotes],
            ''Potential SQL injection'')]\<rparr>),
      (''todo_comments'',
       \<lparr>cfg_severity = ''info'',
        cfg_patterns =
          [(seq [str ''//'', Star space_class, str ''TODO''], ''TODO comment found''),
           (seq [str ''#'', Star space_class, str ''TODO''], ''TODO comment found''),
           (seq [str ''//'', Star space_class, str ''FIXME''], ''FIXME comment found''),
           (seq [str ''#'', Star space_class, str ''FIXME''], ''FIXME comment found'')]\<rparr>)]"

text \<open>\<open>enumerate(xs, n)\<close>.\<close>

fun py_enumerate :: "int \<Rightarrow> 'a list \<Rightarrow> (int \<times> 'a) list" where
  "py_enumerate n [] = []"
| "py_enumerate n (x # xs) = (n, x) # py_enumerate (n + 1) xs"

text \<open>
  The loop \<open>for i, line in enumerate(lines, 1): if cond: matches.append(mk)\<close> that every
  rule of the detector is.
\<close>

definition scan ::
  "(int \<Rightarrow> string \<Rightarrow> bool) \<Rightarrow> (int \<Rightarrow> string \<Rightarrow> PatternMatch) \<Rightarrow> string list \<Rightarrow> PatternMatch list" where
  "scan cond mk lines =
     map (\<lambda>(i, line). mk i line) (filter (\<lambda>(i, line). cond i line) (py_enumerate 1 lines))"

text \<open>\<open>xs[a:b]\<close> and \<open>xs[a:]\<close> for \<open>0 \<le> a \<le> b\<close>.\<close>

definition slice :: "'a list \<Rightarrow> int \<Rightarrow> int \<Rightarrow> 'a list" where
  "slice xs a b = take (nat (b - a)) (drop (nat a) xs)"

definition slice_from :: "'a list \<Rightarrow> int \<Rightarrow> 'a list" where
  "slice_from xs a = drop (nat a) xs"

definition detect_java_patterns :: "string \<Rightarrow> PatternMatch list" where
  "detect_java_patterns code =
     (let lines = split_nl code
      in scan
           (\<lambda>i line. contains ''catch'' line \<and>
              list_ex (\<lambda>l. strip l = ''}'')
                (if i < int (length lines) - 3 then slice lines i (i + 3) else slice_from lines i))
           (\<lambda>i line. \<lparr>pattern_type = ''empty_catch'', severity = ''major'',
              message = ''Empty catch block - swallows exceptions'',
              line_number = i, code_snippet = strip line, confidence = 8 / 10\<rparr>)
           lines
         @ scan
           (\<lambda>i line. re_search
              (seq [str ''catch'', Star space_class, lit (CHR ''(''), Star space_class,
                    str ''Exception'']) line)
           (\<lambda>i line. \<lparr>pattern_type = ''catch_generic_exception'', severity = ''minor'',
              message = ''Catching generic Exception - be more specific'',
              line_number = i, code_snippet = strip line, confidence = 9 / 10\<rparr>)
           lines
         @ scan
           (\<lambda>i line. contains ''System.out.println'' line \<or> contains ''System.err.println'' line)
           (\<lambda>i line. \<lparr>pattern_type = ''console_logging'', severity = ''minor'',
              message = ''Use logger instead of System.out.println'',
              line_number = i, code_snippet = strip line, confidence = 95 / 100\<rparr>)
           lines)"

text \<open>\<open>def\s+\w+\s*\([^)]*=\s*\<close> followed by the opening bracket of the default value.\<close>

definition default_argument :: "char \<Rightarrow> rx" where
  "default_argument bracket =
     seq [str ''def'', plus space_class, plus word_class, Star space_class, lit (CHR ''(''),
          Star (none_of '')''), lit (CHR ''=''), Star space_class, lit bracket]"

definition detect_python_patterns :: "string \<Rightarrow> PatternMatch list" where
  "detect_python_patterns code =
     (let lines = split_nl code
      in scan
           (\<lambda>i line. re_search (seq [str ''except'', Star space_class, lit (CHR '':'')]) line)
           (\<lambda>i line. \<lparr>pattern_type = ''bare_except'', severity = ''major'',
              message = ''Bare except clause - catches all exceptions'',
              line_number = i, code_snippet = strip line, confidence = 95 / 100\<rparr>)
           lines
         @ scan
           (\<lambda>i line. re_search_b (seq [str ''print'', Star space_class, lit (CHR ''('')]) line
              \<and> \<not> contains ''logger'' code)
           (\<lambda>i line. \<lparr>pattern_type = ''print_statement'', severity = ''info'',
              message = ''Consider using logging instead of print'',
              line_number = i, code_snippet = strip line, confidence = 7 / 10\<rparr>)
           lines
         @ scan
           (\<lambda>i line. re_search (default_argument (CHR ''['')) line
              \<or> re_search (default_argument (CHR ''{'')) line)
           (\<lambda>i line. \<lparr>pattern_type = ''mutable_default_argument'', severity = ''major'',
              message = ''Mutable default argument - can lead to unexpected behavior'',
              line_number = i, code_snippet = strip line, confidence = 85 / 100\<rparr>)
           lines)"

text \<open>\<open>[^=!<>]==[^=]\<close>.\<close>

definition loose_equality_regex :: rx where
  "loose_equality_regex = seq [none_of ''=!<>'', lit (CHR ''=''), lit (CHR ''=''), none_of ''='']"

definition detect_javascript_patterns :: "string \<Rightarrow> PatternMatch list" where
  "detect_javascript_patterns code =
     (let lines = split_nl code
      in scan
           (\<lambda>i line. contains ''console.log'' line \<or> contains ''console.error'' line)
           (\<lambda>i line. \<lparr>pattern_type = ''console_log'', severity = ''info'',
              message = ''Remove console.log before production'',
              line_number = i, code_snippet = strip line, confidence = 9 / 10\<rparr>)
           lines
         @ scan
           (\<lambda>i line. re_search loose_equality_regex line)
           (\<lambda>i line. \<lparr>pattern_type = ''loose_equality'', severity = ''minor'',
              message = ''Use === instead of == for strict equality'',
              line_number = i, code_snippet = strip line, confidence = 8 / 10\<rparr>)
           lines
         @ scan
           (\<lambda>i line. re_search_b (seq [str ''var'', plus space_class]) line)
           (\<lambda>i line. \<lparr>pattern_type = ''var_keyword'', severity = ''minor'',
              message = ''Use let or const instead of var'',
              line_number = i, code_snippet = strip line, confidence = 9 / 10\<rparr>)
           lines)"

text \<open>
  \<open>_detect_universal_patterns\<close> on the rule table \<open>self.patterns\<close>: of the entries of the
  table only the one under the key \<open>hardcoded_credentials\<close> is applied; the scan for
  \<open>(//|#)\s*(TODO|FIXME)\<close> has its pattern in the method itself.
\<close>

definition detect_universal_patterns ::
  "(string \<times> pattern_config) list \<Rightarrow> string \<Rightarrow> PatternMatch list" where
  "detect_universal_patterns patterns code =
     (let lines = split_nl code
      in concat (map (\<lambda>(ptype, config).
           if ptype = ''hardcoded_credentials'' then
             concat (map (\<lambda>(regex, msg).
               scan
                 (\<lambda>i line. re_search (ignorecase regex) line)
                 (\<lambda>i line. \<lparr>pattern_type = ptype, severity = cfg_severity config,
                    message = msg, line_number = i, code_snippet = strip line,
                    confidence = 85 / 100\<rparr>)
                 lines) (cfg_patterns config))
           else []) patterns)
         @ scan
           (\<lambda>i line. re_search
              (ignorecase (seq [Alt (str ''//'') (str ''#''), Star space_class,
                                Alt (str ''TODO'') (str ''FIXME'')])) line)
           (\<lambda>i line. \<lparr>pattern_type = ''todo_comment'', severity = ''info'',
              message = ''TODO/FIXME comment - needs attention'',
              line_number = i, code_snippet = take 80 (strip line), confidence = 95 / 100\<rparr>)
           lines)"

text \<open>\<open>detect_patterns\<close> of the detector whose table is \<open>_load_patterns()\<close>.\<close>

definition detect_patterns :: "string \<Rightarrow> string \<Rightarrow> string \<Rightarrow> PatternMatch list" where
  "detect_patterns code language path =
     (let language' = lower language
      in (if language' = ''java'' then detect_java_patterns code
          else if language' = ''python'' then detect_python_patterns code
          else if language' \<in> set [''javascript'', ''typescript''] then detect_javascript_patterns code
          else [])
         @ detect_universal_patterns load_patterns code)"

section \<open>Collaborators and their calls\<close>

text \<open>
  The embedding provider, the key/value cache and the vector index are objects outside
  the repository.  Each of their operations is a function of the state of the outside
  world \<open>'w\<close> that returns a value or raises (an instance of \<open>Exception\<close>) and leaves
  a new state of the world.  A run of a service method carries the world and the trace
  of the calls the method has made on its collaborators.  The elements of a vector are
  of a type \<open>'f\<close> that is left open: no operation here computes with them.  Calls to the
  logger are left out.
\<close>

record ('w, 'e) run =
  world :: 'w
  trace :: "'e list"

definition call :: "'e \<Rightarrow> ('w \<Rightarrow> 'a \<times> 'w) \<Rightarrow> ('w, 'e) run \<Rightarrow> 'a \<times> ('w, 'e) run" where
  "call ev f st = (case f (world st) of (r, w') \<Rightarrow> (r, \<lparr>world = w', trace = trace st @ [ev]\<rparr>))"

section \<open>Embedding service (app/services/embedding\_service.py)\<close>

datatype 'f embed_event =
    ProviderCall string string string
  | CacheGet string
  | CacheSet string "'f list" int

text \<open>\<open>gemini_service.generate_embedding(text=, model=, task_type=)\<close>.\<close>

record ('w, 'f) GeminiService =
  gemini_generate_embedding ::
    "string \<Rightarrow> string \<Rightarrow> string \<Rightarrow> 'w \<Rightarrow> (py_exception + 'f list) \<times> 'w"

text \<open>\<open>cache_service.get_embedding(key)\<close> and \<open>cache_service.set_embedding(key, v, ttl=)\<close>.\<close>

record ('w, 'f) CacheService =
  get_embedding :: "string \<Rightarrow> 'w \<Rightarrow> (py_exception + 'f list option) \<times> 'w"
  set_embedding :: "string \<Rightarrow> 'f list \<Rightarrow> int \<Rightarrow> 'w \<Rightarrow> (py_exception + unit) \<times> 'w"

text \<open>
  The attributes of \<open>EmbeddingService\<close>; a collaborator that was not given is \<open>None\<close>, one
  that was given is a truthy object.  \<open>hashlib.sha256(...).hexdigest()\<close> and the body of
  \<open>_generate_dummy_embedding\<close> (MD5, the \<open>random\<close> module, float arithmetic) are taken as
  given functions.
\<close>

record ('w, 'f) EmbeddingService =
  gemini_service :: "('w, 'f) GeminiService option"
  cache_service :: "('w, 'f) CacheService option"
  embedding_model :: string
  sha256_hexdigest :: "string \<Rightarrow> string"
  generate_dummy_embedding :: "string \<Rightarrow> 'f list"

text \<open>\<open>_generate_cache_key\<close>: the digest of \<open>f"{task_type}:{text}"\<close>.\<close>

definition generate_cache_key :: "('w, 'f) EmbeddingService \<Rightarrow> string \<Rightarrow> string \<Rightarrow> string" where
  "generate_cache_key svc text task_type = sha256_hexdigest svc (task_type @ '':'' @ text)"

text \<open>The truth value of an optional vector: \<open>None\<close> and the empty list are falsy.\<close>

definition truthy :: "'f list option \<Rightarrow> bool" where
  "truthy v = (case v of None \<Rightarrow> False | Some xs \<Rightarrow> xs \<noteq> [])"

text \<open>
  The cache check of \<open>generate_embedding\<close>, which stands before the \<open>try\<close>: an exception
  of \<open>get_embedding\<close> leaves the method.  The result \<open>Inr (Some v)\<close> is a hit.
\<close>

definition cache_lookup ::
  "('w, 'f) EmbeddingService \<Rightarrow> string \<Rightarrow> ('w, 'f embed_event) run
     \<Rightarrow> (py_exception + 'f list option) \<times> ('w, 'f embed_event) run" where
  "cache_lookup svc cache_key st =
     (case cache_service svc of
        None \<Rightarrow> (Inr None, st)
      | Some c \<Rightarrow>
          (case call (CacheGet cache_key) (get_embedding c cache_key) st of
             (Inl e, st1) \<Rightarrow> (Inl e, st1)
           | (Inr cached, st1) \<Rightarrow>
               if truthy cached then (Inr cached, st1) else (Inr None, st1)))"

text \<open>The body of the \<open>try\<close> of \<open>generate_embedding\<close>.\<close>

definition embed_try ::
  "('w, 'f) EmbeddingService \<Rightarrow> string \<Rightarrow> string \<Rightarrow> string \<Rightarrow> ('w, 'f embed_event) run
     \<Rightarrow> (py_exception + 'f list option) \<times> ('w, 'f embed_event) run" where
  "embed_try svc text task_type cache_key st =
     (case (case gemini_service svc of
              Some g \<Rightarrow>
                call (ProviderCall text (embedding_model svc) task_type)
                  (gemini_generate_embedding g text (embedding_model svc) task_type) st
            | None \<Rightarrow> (Inr (generate_dummy_embedding svc text), st)) of
        (Inl e, st1) \<Rightarrow> (Inl e, st1)
      | (Inr embedding, st1) \<Rightarrow>
          (case cache_service svc of
             None \<Rightarrow> (Inr (Some embedding), st1)
           | Some c \<Rightarrow>
               if embedding \<noteq> [] then
                 (case call (CacheSet cache_key embedding 86400)
                         (set_embedding c cache_key embedding 86400) st1 of
                    (Inl e, st2) \<Rightarrow> (Inl e, st2)
                  | (Inr u, st2) \<Rightarrow> (Inr (Some embedding), st2))
               else (Inr (Some embedding), st1)))"

definition generate_embedding ::
  "('w, 'f) EmbeddingService \<Rightarrow> string \<Rightarrow> string \<Rightarrow> ('w, 'f embed_event) run
     \<Rightarrow> (py_exception + 'f list option) \<times> ('w, 'f embed_event) run" where
  "generate_embedding svc text task_type st =
     (if text = [] \<or> strip text = [] then (Inr None, st)
      else
        (let cache_key = generate_cache_key svc text task_type
         in case cache_lookup svc cache_key st of
              (Inl e, st1) \<Rightarrow> (Inl e, st1)
            | (Inr (Some cached), st1) \<Rightarrow> (Inr (Some cached), st1)
            | (Inr None, st1) \<Rightarrow>
                (case embed_try svc text task_type cache_key st1 of
                   (Inl e, st2) \<Rightarrow> (Inr None, st2)
                 | (Inr embedding, st2) \<Rightarrow> (Inr embedding, st2))))"

text \<open>The number of provider calls in a trace.\<close>

definition provider_calls :: "'f embed_event list \<Rightarrow> nat" where
  "provider_calls tr = length (filter (\<lambda>ev. case ev of ProviderCall t m k \<Rightarrow> True | _ \<Rightarrow> False) tr)"

section \<open>Similarity retrieval (app/services/rag\_service.py)\<close>

text \<open>The \<open>where\<close> argument of a query: repository and language, or the language alone.\<close>

datatype where_filter = WhereRepositoryLanguage string string | WhereLanguage string

datatype index_event = CountCall | QueryCall "string list" int where_filter

text \<open>
  The result of \<open>collection.query\<close>: per query text a list of documents, and optionally
  the lists of their metadata (an entry may be \<open>None\<close>) and of their distances.
\<close>

record ('f, 'm) query_result =
  documents :: "string list list option"
  metadatas :: "(string \<rightharpoonup> 'm) option list list option"
  distances :: "'f list list option"

record ('w, 'f, 'm) Collection =
  count :: "'w \<Rightarrow> (py_exception + int) \<times> 'w"
  query :: "string list \<Rightarrow> int \<Rightarrow> where_filter \<Rightarrow> 'w
              \<Rightarrow> (py_exception + ('f, 'm) query_result option) \<times> 'w"

text \<open>
  One entry of the result, a dictionary with the keys \<open>code\<close>, \<open>metadata\<close>,
  \<open>distance\<close> and \<open>description\<close>: the metadata is the entry of the index (\<open>None\<close>
  where the index holds none) or an empty dictionary, the distance is the index's float
  or the integer 0, the description is the metadata value or the empty string.
\<close>

record ('f, 'm) similar_pattern =
  sp_code :: string
  sp_metadata :: "(string \<rightharpoonup> 'm) option"
  sp_distance :: "'f + int"
  sp_description :: "'m + string"

text \<open>\<open>xs[i]\<close> on a list, for \<open>i\<close> a natural number.\<close>

definition index_list :: "'a list \<Rightarrow> nat \<Rightarrow> py_exception + 'a" where
  "index_list xs i = (if i < length xs then Inr (xs ! i) else Inl IndexError)"

text \<open>\<open>xss[0][i]\<close>.\<close>

definition index_first :: "'a list list \<Rightarrow> nat \<Rightarrow> py_exception + 'a" where
  "index_first xss i = (case index_list xss 0 of Inl e \<Rightarrow> Inl e | Inr xs \<Rightarrow> index_list xs i)"

text \<open>
  The dictionary built for document \<open>i\<close>; its values are evaluated in the order
  metadata, distance, description.  \<open>.get\<close> on \<open>None\<close> raises \<open>AttributeError\<close>.
\<close>

definition make_pattern ::
  "('f, 'm) query_result \<Rightarrow> nat \<Rightarrow> string \<Rightarrow> py_exception + ('f, 'm) similar_pattern" where
  "make_pattern results i doc =
     (case (case metadatas results of
              None \<Rightarrow> Inr (Some Map.empty)
            | Some ms \<Rightarrow> if ms = [] then Inr (Some Map.empty) else index_first ms i) of
        Inl e \<Rightarrow> Inl e
      | Inr md \<Rightarrow>
     (case (case distances results of
              None \<Rightarrow> Inr (Inr 0)
            | Some ds \<Rightarrow>
                if ds = [] then Inr (Inr 0)
                else (case index_first ds i of Inl e \<Rightarrow> Inl e | Inr d \<Rightarrow> Inr (Inl d))) of
        Inl e \<Rightarrow> Inl e
      | Inr dv \<Rightarrow>
     (case (case metadatas results of
              None \<Rightarrow> Inr (Inr [])
            | Some ms \<Rightarrow>
                if ms = [] then Inr (Inr [])
                else (case index_first ms i of
                        Inl e \<Rightarrow> Inl e
                      | Inr None \<Rightarrow> Inl AttributeError
                      | Inr (Some m) \<Rightarrow>
                          (case m ''description'' of
                             None \<Rightarrow> Inr (Inr [])
                           | Some v \<Rightarrow> Inr (Inl v)))) of
        Inl e \<Rightarrow> Inl e
      | Inr descr \<Rightarrow>
          Inr \<lparr>sp_code = doc, sp_metadata = md, sp_distance = dv, sp_description = descr\<rparr>)))"

text \<open>The loop over \<open>enumerate(results['documents'][0])\<close>; an exception ends it.\<close>

fun format_loop ::
  "('f, 'm) query_result \<Rightarrow> nat \<Rightarrow> string list \<Rightarrow> ('f, 'm) similar_pattern list
     \<Rightarrow> py_exception + ('f, 'm) similar_pattern list" where
  "format_loop results i [] patterns = Inr patterns"
| "format_loop results i (doc # docs) patterns =
     (case make_pattern results i doc of
        Inl e \<Rightarrow> Inl e
      | Inr pattern \<Rightarrow> format_loop results (Suc i) docs (patterns @ [pattern]))"

text \<open>
  The formatting of the results: nothing when the result is \<open>None\<close> or holds no list of
  documents.
\<close>

definition format_results ::
  "('f, 'm) query_result option \<Rightarrow> py_exception + ('f, 'm) similar_pattern list" where
  "format_results results =
     (case results of
        None \<Rightarrow> Inr []
      | Some r \<Rightarrow>
          (case documents r of
             None \<Rightarrow> Inr []
           | Some dss \<Rightarrow>
               (case dss of
                  [] \<Rightarrow> Inr []
                | ds # rest \<Rightarrow> format_loop r 0 ds [])))"

text \<open>
  The body of the \<open>try\<close> of \<open>find_similar_patterns\<close>.  \<open>collection.count()\<close> is called
  for the test and again for \<open>n_results\<close>.
\<close>

definition find_similar_try ::
  "('w, 'f, 'm) Collection \<Rightarrow> string \<Rightarrow> string \<Rightarrow> string \<Rightarrow> int \<Rightarrow> ('w, index_event) run
     \<Rightarrow> (py_exception + ('f, 'm) similar_pattern list) \<times> ('w, index_event) run" where
  "find_similar_try collection snippet repository_id language limit st =
     (case call CountCall (count collection) st of
        (Inl e, st1) \<Rightarrow> (Inl e, st1)
      | (Inr n, st1) \<Rightarrow>
          if n = 0 then (Inr [], st1)
          else
            (case call CountCall (count collection) st1 of
               (Inl e, st2) \<Rightarrow> (Inl e, st2)
             | (Inr n2, st2) \<Rightarrow>
                 (let n_results = min limit n2;
                      wh = (if repository_id \<noteq> []
                            then WhereRepositoryLanguage repository_id language
                            else WhereLanguage language)
                  in case call (QueryCall [snippet] n_results wh)
                            (query collection [snippet] n_results wh) st2 of
                       (Inl e, st3) \<Rightarrow> (Inl e, st3)
                     | (Inr results, st3) \<Rightarrow>
                         (case format_results results of
                            Inl e \<Rightarrow> (Inl e, st3)
                          | Inr patterns \<Rightarrow> (Inr patterns, st3)))))"

text \<open>\<open>find_similar_patterns\<close>: \<open>except Exception\<close> turns every exception into \<open>[]\<close>.\<close>

definition find_similar_patterns ::
  "('w, 'f, 'm) Collection \<Rightarrow> string \<Rightarrow> string \<Rightarrow> string \<Rightarrow> int \<Rightarrow> ('w, index_event) run
     \<Rightarrow> (py_exception + ('f, 'm) similar_pattern list) \<times> ('w, index_event) run" where
  "find_similar_patterns collection snippet repository_id language limit st =
     (case find_similar_try collection snippet repository_id language limit st of
        (Inl e, st') \<Rightarrow> (Inr [], st')
      | (Inr patterns, st') \<Rightarrow> (Inr patterns, st'))"

text \<open>The query calls in a trace.\<close>

definition query_calls :: "index_event list \<Rightarrow> nat" where
  "query_calls tr = length (filter (\<lambda>ev. case ev of QueryCall q n w \<Rightarrow> True | CountCall \<Rightarrow> False) tr)"

section \<open>Properties of the diff parser: vocabulary\<close>












definition after_header :: parse_state where
  "after_header = parse_line init_state ''@@ -1 +5 @@''"


section \<open>Properties of the pattern detector: vocabulary\<close>

text \<open>
  The strings a pattern stands for.  A search with \<open>re\<close> finds a match exactly when
  some substring of the subject is one of them.
\<close>

inductive_set rx_star :: "string set \<Rightarrow> string set" for A :: "string set" where
  star_empty: "[] \<in> rx_star A"
| star_more: "u \<in> A \<Longrightarrow> v \<in> rx_star A \<Longrightarrow> u @ v \<in> rx_star A"

fun rx_lang :: "rx \<Rightarrow> string set" where
  "rx_lang Never = {}"
| "rx_lang Eps = {[]}"
| "rx_lang (Atom neg p) = {[c] | c. atom_matches neg p c}"
| "rx_lang (Cat r s) = {u @ v | u v. u \<in> rx_lang r \<and> v \<in> rx_lang s}"
| "rx_lang (Alt r s) = rx_lang r \<union> rx_lang s"
| "rx_lang (Star r) = rx_star (rx_lang r)"

text \<open>
  What \<open>[^=!<>]==[^=]\<close> looks for: two \<open>=\<close> with a character other than \<open>=\<close>,
  \<open>!\<close>, \<open><\<close>, \<open>>\<close> before them and a character other than \<open>=\<close> after them.
\<close>

definition loose_equality_shape :: "string \<Rightarrow> bool" where
  "loose_equality_shape line =
     (\<exists>u a b v. line = u @ [a, CHR ''='', CHR ''='', b] @ v \<and> a \<notin> set ''=!<>'' \<and> b \<noteq> CHR ''='')"

text \<open>
  The condition in the words of the specification: the line contains \<open>==\<close> that is not
  immediately preceded and not immediately followed by one of \<open>=\<close>, \<open>!\<close>, \<open><\<close>,
  \<open>>\<close>.
\<close>

definition claimed_loose_equality :: "string \<Rightarrow> bool" where
  "claimed_loose_equality line =
     (\<exists>u v. line = u @ ''=='' @ v \<and>
        (case rev u of [] \<Rightarrow> True | a # u' \<Rightarrow> a \<notin> set ''=!<>'') \<and>
        (case v of [] \<Rightarrow> True | b # v' \<Rightarrow> b \<notin> set ''=!<>''))"

text \<open>The line \<open>execute("a" + b + "")\<close>.\<close>

definition sql_line :: string where
  "sql_line = ''execute('' @ [CHR 0x22] @ ''a'' @ [CHR 0x22] @ '' + b + '' @ [CHR 0x22, CHR 0x22] @ '')''"

section \<open>Properties of the services: vocabulary\<close>

text \<open>Two calls of \<open>generate_embedding\<close> with the same text and task type, one after the other.\<close>

definition twice ::
  "('w, 'f) EmbeddingService \<Rightarrow> string \<Rightarrow> string \<Rightarrow> ('w, 'f embed_event) run
     \<Rightarrow> (py_exception + 'f list option) \<times> (py_exception + 'f list option) \<times> ('w, 'f embed_event) run" where
  "twice svc text task_type st =
     (case generate_embedding svc text task_type st of
        (r1, st1) \<Rightarrow>
          (case generate_embedding svc text task_type st1 of
             (r2, st2) \<Rightarrow> (r1, r2, st2)))"

text \<open>
  Sample collaborators.  The world is the content of a dictionary that serves as cache,
  with \<open>get(key)\<close> returning the vector or \<open>None\<close> and \<open>set(key, vector, ttl)\<close> storing
  it; vectors are lists of rationals.  The sample service takes the identity for the
  digest function.
\<close>

definition dict_cache :: "((string \<times> rat list) list, rat) CacheService" where
  "dict_cache =
     \<lparr>get_embedding = (\<lambda>key w. (Inr (map_of w key), w)),
      set_embedding = (\<lambda>key v ttl w. (Inr (), (key, v) # w))\<rparr>"


definition fixed_provider :: "rat list \<Rightarrow> ((string \<times> rat list) list, rat) GeminiService" where
  "fixed_provider v = \<lparr>gemini_generate_embedding = (\<lambda>text model task_type w. (Inr v, w))\<rparr>"


definition sample_service ::
  "((string \<times> rat list) list, rat) GeminiService \<Rightarrow> ((string \<times> rat list) list, rat) CacheService
     \<Rightarrow> ((string \<times> rat list) list, rat) EmbeddingService" where
  "sample_service g c =
     \<lparr>gemini_service = Some g, cache_service = Some c,
      embedding_model = ''models/embedding-001'',
      sha256_hexdigest = (\<lambda>s. s),
      generate_dummy_embedding = (\<lambda>text. [1])\<rparr>"

definition run_from :: "(string \<times> rat list) list \<Rightarrow> ((string \<times> rat list) list, rat embed_event) run" where
  "run_from w = \<lparr>world = w, trace = []\<rparr>"


definition empty_index :: "(unit, rat, string) Collection" where
  "empty_index =
     \<lparr>count = (\<lambda>w. (Inr 0, w)),
      query = (\<lambda>texts n wh w. (Inr None, w))\<rparr>"

section \<open>Verification of the diff parser\<close>

subsection \<open>Lines and prefixes\<close>

lemma split_nl_nonempty: "split_nl s \<noteq> []"
  by (induction s) (auto, metis cons_first.elims list.discI)




lemma startswith_Cons: "startswith (c # cs) (p # ps) = (c = p \<and> startswith cs ps)"
  by (auto simp: startswith_def)

lemma startswith_Nil [simp]: "startswith s []"
  by (simp add: startswith_def)

lemma startswith_empty: "startswith [] (p # ps) = False"
  by (simp add: startswith_def)

lemma startswith_iff_prefix: "startswith s p = (\<exists>r. s = p @ r)"
  unfolding startswith_def by (metis append_eq_conv_conj append_take_drop_id)

lemma startswith_shorter: "startswith s (p @ q) \<Longrightarrow> startswith s p"
  by (auto simp: startswith_iff_prefix)

lemma no_file_header: "\<not> startswith l ''+++'' \<Longrightarrow> new_file_match l = None"
  using startswith_shorter [of l "''+++''" "'' b/''"]
  by (auto simp: new_file_match_def strip_prefix_def)

lemma no_chunk_header: "\<not> startswith l ''@'' \<Longrightarrow> chunk_header_match l = None"
  using startswith_shorter [of l "''@''" "''@ -''"]
  by (auto simp: chunk_header_match_def strip_prefix_def)

lemma first_char:
  "startswith l [c] \<Longrightarrow> startswith l [d] \<Longrightarrow> c = d"
  by (auto simp: startswith_iff_prefix)

subsection \<open>One step of the parser\<close>

lemma parse_line_body:
  assumes "current_chunk st = Some c"
      and "startswith l ''+'' \<or> startswith l ''-'' \<or> startswith l '' ''"
      and "\<not> startswith l ''+++''" and "\<not> startswith l ''---''"
  shows "parse_line st l =
     (if startswith l ''+'' then
        st\<lparr>current_chunk := Some (c\<lparr>added_lines := added_lines c @ [(new_line st, drop 1 l)]\<rparr>),
           new_line := new_line st + 1\<rparr>
      else if startswith l ''-'' then
        st\<lparr>current_chunk := Some (c\<lparr>removed_lines := removed_lines c @ [(old_line st, drop 1 l)]\<rparr>),
           old_line := old_line st + 1\<rparr>
      else
        st\<lparr>current_chunk := Some (c\<lparr>context_lines := context_lines c @ [(new_line st, drop 1 l)]\<rparr>),
           old_line := old_line st + 1, new_line := new_line st + 1\<rparr>)"
proof -
  have "\<not> startswith l ''@''"
    using assms(2) first_char [of l "CHR ''@''"] by fastforce
  then have "chunk_header_match l = None" by (rule no_chunk_header)
  moreover have "new_file_match l = None" using assms(3) by (rule no_file_header)
  ultimately show ?thesis
    using assms by (auto simp: parse_line_def)
qed






subsection \<open>Counts of a single hunk\<close>




subsection \<open>Context lines\<close>

text \<open>
  Claim C2 as stated: a context line is recorded at both the old-line and the new-line
  counter.  The entry holds one line number, the new-line counter: after the header
  \<open>@@ -1 +5 @@\<close> the old-line counter is 1, and the context line is recorded at 5.
\<close>

theorem context_line_counterexample:
  "old_line after_header = 1 \<and> new_line after_header = 5 \<and>
   map_option context_lines (current_chunk (parse_line after_header '' a'')) = Some [(5, ''a'')]"
  by code_simp

text \<open>
  Claim C2, amended: a line beginning with a space that follows a hunk header is appended
  to the context sequence of the open chunk as the pair of the running new-line counter
  and the text after the space, and both counters increment by one afterwards.
\<close>

theorem context_line_step:
  assumes "current_chunk st = Some c"
  shows "parse_line st (CHR '' '' # content) =
           st\<lparr>current_chunk := Some (c\<lparr>context_lines := context_lines c @ [(new_line st, content)]\<rparr>),
              old_line := old_line st + 1, new_line := new_line st + 1\<rparr>"
proof -
  let ?l = "CHR '' '' # content"
  have k: "startswith ?l ''+'' \<or> startswith ?l ''-'' \<or> startswith ?l '' ''"
    by (simp add: startswith_Cons)
  have h: "\<not> startswith ?l ''+++''" "\<not> startswith ?l ''---''"
    by (simp_all add: startswith_Cons)
  show ?thesis
    using parse_line_body [OF assms k h] by (simp add: startswith_Cons)
qed

theorem context_line_step_witness:
  "current_chunk after_header \<noteq> None \<and>
   old_line (parse_line after_header '' a'') = 2 \<and>
   new_line (parse_line after_header '' a'') = 6 \<and>
   map_option context_lines (current_chunk (parse_line after_header '' a'')) = Some [(5, ''a'')]"
proof -
  have c: "current_chunk after_header =
      Some \<lparr>file_path = [], old_start = 1, old_count = 1, new_start = 5, new_count = 1,
            added_lines = [], removed_lines = [], context_lines = []\<rparr>"
    by code_simp
  have l: "old_line after_header = 1" "new_line after_header = 5"
    by code_simp+
  show ?thesis using context_line_step [OF c, of "''a''"] c l by simp
qed

subsection \<open>Changed line ranges\<close>









section \<open>Verification of the embedding service and of retrieval\<close>

subsection \<open>Blank text\<close>

lemma strip_blank: "strip s = [] \<longleftrightarrow> list_all is_space s"
proof
  assume "list_all is_space s"
  then have "dropWhile is_space s = []"
    by (induction s) auto
  then show "strip s = []" by (auto simp: strip_def dest: set_dropWhileD)
next
  assume "strip s = []"
  then have a: "\<forall>x\<in>set (dropWhile is_space s). is_space x"
    by (simp add: strip_def)
  have "dropWhile is_space s = []"
  proof (rule ccontr)
    assume n: "dropWhile is_space s \<noteq> []"
    then have "\<not> is_space (hd (dropWhile is_space s))" by (rule hd_dropWhile)
    moreover have "hd (dropWhile is_space s) \<in> set (dropWhile is_space s)" using n by simp
    ultimately show False using a by blast
  qed
  then show "list_all is_space s"
    by (induction s) (auto split: if_splits)
qed

text \<open>
  Claim C8: for every empty or whitespace-only text and any task type,
  \<open>generate_embedding\<close> returns \<open>None\<close> and leaves the world and the trace of
  collaborator calls as they were: no provider call, no cache read, no cache write.
\<close>

theorem blank_text_no_calls:
  assumes "text = [] \<or> list_all is_space text"
  shows "generate_embedding svc text task_type st = (Inr None, st)"
  using assms by (auto simp: generate_embedding_def strip_blank)

theorem blank_text_no_calls_witness:
  "list_all is_space [CHR '' '', CHR 0x09] \<and>
   generate_embedding (sample_service (fixed_provider [1, 2]) dict_cache) [CHR '' '', CHR 0x09]
     ''retrieval_document'' (run_from []) = (Inr None, \<lparr>world = [], trace = []\<rparr>)"
proof -
  have b: "list_all is_space [CHR '' '', CHR 0x09]" by (simp add: is_space_def)
  show ?thesis
    using blank_text_no_calls [of "[CHR '' '', CHR 0x09]", OF disjI2, OF b] b
    by (simp add: run_from_def)
qed

subsection \<open>Empty index\<close>

text \<open>
  Claim C9: for every snippet, repository id, language and limit, when \<open>count()\<close> of the
  index returns 0, \<open>find_similar_patterns\<close> returns the empty list and its only call on
  the index is that \<open>count()\<close>: the query operation is not invoked.
\<close>

theorem empty_index_no_query:
  assumes "count collection (world st) = (Inr 0, w')"
  shows "find_similar_patterns collection snippet repository_id language limit st =
           (Inr [], \<lparr>world = w', trace = trace st @ [CountCall]\<rparr>) \<and>
         query_calls (trace st @ [CountCall]) = query_calls (trace st)"
  using assms by (simp add: find_similar_patterns_def find_similar_try_def call_def query_calls_def)

theorem empty_index_no_query_witness:
  "count empty_index () = (Inr 0, ()) \<and>
   find_similar_patterns empty_index ''x = 1'' ''repo'' ''java'' 5 \<lparr>world = (), trace = []\<rparr> =
     (Inr [], \<lparr>world = (), trace = [CountCall]\<rparr>) \<and>
   query_calls [CountCall] = 0"
proof -
  have c: "count empty_index (world \<lparr>world = (), trace = ([] :: index_event list)\<rparr>) = (Inr 0, ())"
    by (simp add: empty_index_def)
  show ?thesis
    using empty_index_no_query [OF c, of "''x = 1''" "''repo''" "''java''" 5]
    by (simp add: empty_index_def query_calls_def)
qed

subsection \<open>Failures of collaborators\<close>



lemma provider_failure_raises_in_try:
  assumes "gemini_service svc = Some g"
      and "gemini_generate_embedding g text (embedding_model svc) task_type (world st) = (Inl e, w')"
  shows "embed_try svc text task_type cache_key st =
           (Inl e, \<lparr>world = w', trace = trace st @ [ProviderCall text (embedding_model svc) task_type]\<rparr>)"
  using assms by (simp add: embed_try_def call_def)

lemma count_failure_raises_in_try:
  assumes "count collection (world st) = (Inl e, w')"
  shows "find_similar_try collection snippet repository_id language limit st =
           (Inl e, \<lparr>world = w', trace = trace st @ [CountCall]\<rparr>)"
  using assms by (simp add: find_similar_try_def call_def)

lemma cache_write_failure_raises_in_try:
  assumes "gemini_service svc = Some g" and "cache_service svc = Some c"
      and "gemini_generate_embedding g text (embedding_model svc) task_type (world st) = (Inr v, w1)"
      and "v \<noteq> []"
      and "set_embedding c cache_key v 86400 w1 = (Inl e, w2)"
  shows "embed_try svc text task_type cache_key st =
           (Inl e, \<lparr>world = w2,
                    trace = trace st @ [ProviderCall text (embedding_model svc) task_type,
                                        CacheSet cache_key v 86400]\<rparr>)"
  using assms by (simp add: embed_try_def call_def)

lemma query_failure_raises_in_try:
  assumes "count collection (world st) = (Inr n, w1)" and "n \<noteq> 0"
      and "count collection w1 = (Inr n2, w2)"
      and "wh = (if repository_id \<noteq> [] then WhereRepositoryLanguage repository_id language
                 else WhereLanguage language)"
      and "query collection [snippet] (min limit n2) wh w2 = (Inl e, w3)"
  shows "find_similar_try collection snippet repository_id language limit st =
           (Inl e, \<lparr>world = w3,
                    trace = trace st @ [CountCall, CountCall,
                                        QueryCall [snippet] (min limit n2) wh]\<rparr>)"
  using assms by (simp add: find_similar_try_def call_def Let_def)




subsection \<open>Embedding the same text twice\<close>

lemma provider_calls_append:
  "provider_calls (xs @ ys) = provider_calls xs + provider_calls ys"
  by (simp add: provider_calls_def)

text \<open>
  Claim C5 as stated: with a cache and a succeeding provider, two calls with the same
  text and task type make exactly one provider call.  When the cache already holds a
  vector for the key, both calls are hits and the provider is not called at all.
\<close>

theorem warm_cache_counterexample:
  "twice (sample_service (fixed_provider [1, 2]) dict_cache) ''x'' ''retrieval_document''
     (run_from [(''retrieval_document:x'', [1 / 2])]) =
   (Inr (Some [1 / 2]), Inr (Some [1 / 2]),
    \<lparr>world = [(''retrieval_document:x'', [1 / 2])],
     trace = [CacheGet ''retrieval_document:x'', CacheGet ''retrieval_document:x'']\<rparr>) \<and>
   provider_calls [CacheGet ''retrieval_document:x'', CacheGet ''retrieval_document:x'' :: rat embed_event] = 0"
  by (simp add: twice_def generate_embedding_def sample_service_def dict_cache_def run_from_def
      generate_cache_key_def cache_lookup_def call_def strip_def is_space_def truthy_def
      provider_calls_def Let_def)

text \<open>
  Claim C5, amended: for every non-blank text and task type, with a provider and a cache
  present, when the cache holds no vector for the key at the first call, the provider
  returns a non-empty vector, the cache write succeeds and the cache then returns the
  vector it was given, two calls of \<open>generate_embedding\<close> with that text and task type
  return that same vector both times and make exactly one provider call in total.
\<close>

theorem embed_twice_one_provider_call:
  assumes "text \<noteq> []" and "strip text \<noteq> []"
      and "gemini_service svc = Some g" and "cache_service svc = Some c"
      and "cache_key = generate_cache_key svc text task_type"
      and "get_embedding c cache_key (world st) = (Inr miss, w1)" and "\<not> truthy miss"
      and "gemini_generate_embedding g text (embedding_model svc) task_type w1 = (Inr v, w2)"
      and "v \<noteq> []"
      and "set_embedding c cache_key v 86400 w2 = (Inr (), w3)"
      and "get_embedding c cache_key w3 = (Inr (Some v), w4)"
  shows "\<exists>st2. twice svc text task_type st = (Inr (Some v), Inr (Some v), st2) \<and>
           provider_calls (trace st2) = provider_calls (trace st) + 1"
proof -
  let ?t1 = "trace st @ [CacheGet cache_key, ProviderCall text (embedding_model svc) task_type,
                         CacheSet cache_key v 86400]"
  let ?st1 = "\<lparr>world = w3, trace = ?t1\<rparr>"
  let ?st2 = "\<lparr>world = w4, trace = ?t1 @ [CacheGet cache_key]\<rparr>"
  have l1: "cache_lookup svc cache_key st = (Inr None, \<lparr>world = w1, trace = trace st @ [CacheGet cache_key]\<rparr>)"
    using assms(4,6,7) by (simp add: cache_lookup_def call_def)
  have t1: "embed_try svc text task_type cache_key \<lparr>world = w1, trace = trace st @ [CacheGet cache_key]\<rparr>
              = (Inr (Some v), ?st1)"
    using assms(3,4,8,9,10) by (simp add: embed_try_def call_def)
  have first: "generate_embedding svc text task_type st = (Inr (Some v), ?st1)"
    using assms(1,2,5) l1 t1 by (simp add: generate_embedding_def Let_def)
  have l2: "cache_lookup svc cache_key ?st1 = (Inr (Some v), ?st2)"
    using assms(4,9,11) by (simp add: cache_lookup_def call_def truthy_def)
  have second: "generate_embedding svc text task_type ?st1 = (Inr (Some v), ?st2)"
    using assms(1,2,5) l2 by (simp add: generate_embedding_def Let_def)
  have "twice svc text task_type st = (Inr (Some v), Inr (Some v), ?st2)"
    using first second by (simp add: twice_def)
  moreover have "provider_calls (trace ?st2) = provider_calls (trace st) + 1"
    by (simp add: provider_calls_append) (simp add: provider_calls_def)
  ultimately show ?thesis by blast
qed

theorem embed_twice_one_provider_call_witness:
  "(\<exists>st2. twice (sample_service (fixed_provider [1, 2]) dict_cache) ''x'' ''retrieval_document'' (run_from []) =
           (Inr (Some [1, 2]), Inr (Some [1, 2]), st2) \<and> provider_calls (trace st2) = 1)"
proof -
  let ?svc = "sample_service (fixed_provider [1, 2]) dict_cache"
  let ?k = "''retrieval_document:x''"
  have a: "''x'' \<noteq> []" "strip ''x'' \<noteq> []" by (simp_all add: strip_def is_space_def)
  have g: "gemini_service ?svc = Some (fixed_provider [1, 2])" "cache_service ?svc = Some dict_cache"
    by (simp_all add: sample_service_def)
  have k: "?k = generate_cache_key ?svc ''x'' ''retrieval_document''"
    by (simp add: generate_cache_key_def sample_service_def)
  have c1: "get_embedding dict_cache ?k (world (run_from [])) = (Inr None, [])" "\<not> truthy (None :: rat list option)"
    by (simp_all add: dict_cache_def run_from_def truthy_def)
  have p: "gemini_generate_embedding (fixed_provider [1, 2]) ''x'' (embedding_model ?svc) ''retrieval_document'' [] = (Inr [1, 2], [])"
    "[1, 2 :: rat] \<noteq> []"
    by (simp_all add: fixed_provider_def)
  have s: "set_embedding dict_cache ?k [1, 2] 86400 [] = (Inr (), [(?k, [1, 2])])"
    by (simp add: dict_cache_def)
  have c2: "get_embedding dict_cache ?k [(?k, [1, 2])] = (Inr (Some [1, 2]), [(?k, [1, 2])])"
    by (simp add: dict_cache_def)
  show ?thesis
    using embed_twice_one_provider_call [OF a g k c1 p s c2]
    by (simp add: run_from_def provider_calls_def)
qed

section \<open>Verification of the pattern detector\<close>

subsection \<open>The matcher finds the strings of the pattern\<close>

lemma nullable_lang: "nullable r \<longleftrightarrow> [] \<in> rx_lang r"
  by (induction r) (auto intro: star_empty)

lemma star_cons_split:
  assumes "x \<in> rx_star A" and "x = c # w"
  shows "\<exists>u v. w = u @ v \<and> c # u \<in> A \<and> v \<in> rx_star A"
  using assms
proof (induction arbitrary: w rule: rx_star.induct)
  case star_empty
  then show ?case by simp
next
  case (star_more u v)
  show ?case
  proof (cases u)
    case Nil
    then show ?thesis using star_more by simp
  next
    case (Cons a u')
    then have "a = c" "w = u' @ v" using star_more.prems by simp_all
    then show ?thesis using star_more.hyps Cons by blast
  qed
qed

lemma star_cons:
  "c # w \<in> rx_star A \<longleftrightarrow> (\<exists>u v. w = u @ v \<and> c # u \<in> A \<and> v \<in> rx_star A)"
proof
  assume "c # w \<in> rx_star A"
  then show "\<exists>u v. w = u @ v \<and> c # u \<in> A \<and> v \<in> rx_star A"
    by (rule star_cons_split) simp
next
  assume "\<exists>u v. w = u @ v \<and> c # u \<in> A \<and> v \<in> rx_star A"
  then obtain u v where "w = u @ v" "c # u \<in> A" "v \<in> rx_star A" by blast
  then show "c # w \<in> rx_star A" using star_more [of "c # u" A v] by simp
qed

lemma deriv_lang: "w \<in> rx_lang (rx_deriv c r) \<longleftrightarrow> c # w \<in> rx_lang r"
proof (induction r arbitrary: w)
  case (Cat r s)
  show ?case
  proof
    assume "w \<in> rx_lang (rx_deriv c (Cat r s))"
    then consider (l) u v where "w = u @ v" "u \<in> rx_lang (rx_deriv c r)" "v \<in> rx_lang s"
      | (r) "nullable r" "w \<in> rx_lang (rx_deriv c s)"
      by (auto split: if_splits)
    then show "c # w \<in> rx_lang (Cat r s)"
    proof cases
      case l
      then have "c # u \<in> rx_lang r" using Cat.IH(1) by simp
      then have "\<exists>a b. c # w = a @ b \<and> a \<in> rx_lang r \<and> b \<in> rx_lang s"
        using l(1,3) by (metis append_Cons)
      then show ?thesis by simp
    next
      case r
      then have "[] \<in> rx_lang r" "c # w \<in> rx_lang s"
        using Cat.IH(2) by (simp_all add: nullable_lang)
      then have "\<exists>a b. c # w = a @ b \<and> a \<in> rx_lang r \<and> b \<in> rx_lang s"
        by (metis append_Nil)
      then show ?thesis by simp
    qed
  next
    assume "c # w \<in> rx_lang (Cat r s)"
    then obtain u v where uv: "c # w = u @ v" "u \<in> rx_lang r" "v \<in> rx_lang s" by auto
    show "w \<in> rx_lang (rx_deriv c (Cat r s))"
    proof (cases u)
      case Nil
      then have "nullable r" "w \<in> rx_lang (rx_deriv c s)"
        using uv Cat.IH(2) by (simp_all add: nullable_lang)
      then show ?thesis by simp
    next
      case (Cons a u')
      then have "u' \<in> rx_lang (rx_deriv c r)" "w = u' @ v"
        using uv Cat.IH(1) by simp_all
      then show ?thesis using uv(3) by auto
    qed
  qed
next
  case (Star r)
  show ?case
  proof
    assume "w \<in> rx_lang (rx_deriv c (Star r))"
    then obtain u v where "w = u @ v" "u \<in> rx_lang (rx_deriv c r)" "v \<in> rx_star (rx_lang r)"
      by auto
    then show "c # w \<in> rx_lang (Star r)"
      using Star.IH by (auto simp: star_cons)
  next
    assume "c # w \<in> rx_lang (Star r)"
    then obtain u v where "w = u @ v" "c # u \<in> rx_lang r" "v \<in> rx_star (rx_lang r)"
      by (auto simp: star_cons)
    then show "w \<in> rx_lang (rx_deriv c (Star r))"
      using Star.IH by auto
  qed
qed auto

lemma re_match_iff: "re_match r s \<longleftrightarrow> (\<exists>u v. s = u @ v \<and> u \<in> rx_lang r)"
proof (induction s arbitrary: r)
  case Nil
  then show ?case by (simp add: nullable_lang)
next
  case (Cons c cs)
  show ?case
  proof (cases "nullable r")
    case True
    then have "c # cs = [] @ (c # cs) \<and> [] \<in> rx_lang r" by (simp add: nullable_lang)
    then show ?thesis using True by (metis re_match.simps(2))
  next
    case False
    have "(\<exists>u v. c # cs = u @ v \<and> u \<in> rx_lang r) \<longleftrightarrow>
          (\<exists>u' v. cs = u' @ v \<and> c # u' \<in> rx_lang r)"
    proof
      assume "\<exists>u v. c # cs = u @ v \<and> u \<in> rx_lang r"
      then obtain u v where uv: "c # cs = u @ v" "u \<in> rx_lang r" by blast
      then have "u \<noteq> []" using False by (auto simp: nullable_lang)
      then obtain u' where "u = c # u'" "cs = u' @ v" using uv(1) by (cases u) auto
      then show "\<exists>u' v. cs = u' @ v \<and> c # u' \<in> rx_lang r" using uv(2) by blast
    next
      assume "\<exists>u' v. cs = u' @ v \<and> c # u' \<in> rx_lang r"
      then obtain u' v where "cs = u' @ v" "c # u' \<in> rx_lang r" by blast
      then have "c # cs = (c # u') @ v \<and> c # u' \<in> rx_lang r" by simp
      then show "\<exists>u v. c # cs = u @ v \<and> u \<in> rx_lang r" by blast
    qed
    then show ?thesis using False Cons.IH [of "rx_deriv c r"] by (simp add: deriv_lang)
  qed
qed

lemma re_search_iff: "re_search r s \<longleftrightarrow> (\<exists>t u v. s = t @ u @ v \<and> u \<in> rx_lang r)"
proof (induction s)
  case Nil
  then show ?case by (simp add: nullable_lang)
next
  case (Cons c cs)
  have "(\<exists>t u v. c # cs = t @ u @ v \<and> u \<in> rx_lang r) \<longleftrightarrow>
        (\<exists>u v. c # cs = u @ v \<and> u \<in> rx_lang r) \<or> (\<exists>t u v. cs = t @ u @ v \<and> u \<in> rx_lang r)"
  proof
    assume "\<exists>t u v. c # cs = t @ u @ v \<and> u \<in> rx_lang r"
    then obtain t u v where tuv: "c # cs = t @ u @ v" "u \<in> rx_lang r" by blast
    show "(\<exists>u v. c # cs = u @ v \<and> u \<in> rx_lang r) \<or> (\<exists>t u v. cs = t @ u @ v \<and> u \<in> rx_lang r)"
    proof (cases t)
      case Nil
      then show ?thesis using tuv by auto
    next
      case (Cons a t')
      then have "cs = t' @ u @ v" using tuv(1) by simp
      then show ?thesis using tuv(2) by blast
    qed
  next
    assume "(\<exists>u v. c # cs = u @ v \<and> u \<in> rx_lang r) \<or> (\<exists>t u v. cs = t @ u @ v \<and> u \<in> rx_lang r)"
    then show "\<exists>t u v. c # cs = t @ u @ v \<and> u \<in> rx_lang r"
    proof
      assume "\<exists>u v. c # cs = u @ v \<and> u \<in> rx_lang r"
      then obtain u v where "c # cs = [] @ u @ v" "u \<in> rx_lang r" by auto
      then show ?thesis by blast
    next
      assume "\<exists>t u v. cs = t @ u @ v \<and> u \<in> rx_lang r"
      then obtain t u v where "c # cs = (c # t) @ u @ v" "u \<in> rx_lang r" by auto
      then show ?thesis by blast
    qed
  qed
  then have split: "(\<exists>t u v. c # cs = t @ u @ v \<and> u \<in> rx_lang r) =
        ((\<exists>u v. c # cs = u @ v \<and> u \<in> rx_lang r) \<or> (\<exists>t u v. cs = t @ u @ v \<and> u \<in> rx_lang r))" .
  have step: "re_search r (c # cs) = (re_match r (c # cs) \<or> re_search r cs)"
    by (simp del: re_match.simps)
  show ?case
    by (simp only: split step Cons.IH re_match_iff [of r "c # cs"])
qed

subsection \<open>The rules as scans of the lines\<close>

lemma set_py_enumerate:
  "set (py_enumerate n xs) = {(n + int k, xs ! k) | k. k < length xs}"
proof (induction xs arbitrary: n)
  case Nil
  then show ?case by simp
next
  case (Cons x xs)
  have "{(n + int k, (x # xs) ! k) | k. k < length (x # xs)} =
        insert (n, x) {(n + 1 + int k, xs ! k) | k. k < length xs}"
  proof (intro set_eqI iffI)
    fix p
    assume "p \<in> {(n + int k, (x # xs) ! k) | k. k < length (x # xs)}"
    then obtain k where k: "p = (n + int k, (x # xs) ! k)" "k < length (x # xs)" by blast
    show "p \<in> insert (n, x) {(n + 1 + int k, xs ! k) | k. k < length xs}"
    proof (cases k)
      case 0
      then show ?thesis using k by simp
    next
      case (Suc j)
      then have "p = (n + 1 + int j, xs ! j)" "j < length xs" using k by simp_all
      then show ?thesis by blast
    qed
  next
    fix p
    assume "p \<in> insert (n, x) {(n + 1 + int k, xs ! k) | k. k < length xs}"
    then consider "p = (n, x)" | j where "p = (n + 1 + int j, xs ! j)" "j < length xs" by blast
    then show "p \<in> {(n + int k, (x # xs) ! k) | k. k < length (x # xs)}"
    proof cases
      case 1
      then have "p = (n + int 0, (x # xs) ! 0) \<and> 0 < length (x # xs)" by simp
      then show ?thesis by blast
    next
      case 2
      then have "p = (n + int (Suc j), (x # xs) ! Suc j) \<and> Suc j < length (x # xs)" by simp
      then show ?thesis by blast
    qed
  qed
  then show ?case using Cons.IH [of "n + 1"] by simp
qed

lemma set_scan:
  "set (scan cond mk lines) =
     {mk (int k + 1) (lines ! k) | k. k < length lines \<and> cond (int k + 1) (lines ! k)}"
  by (auto simp: scan_def set_py_enumerate add.commute)

lemma scan_pattern_type:
  assumes "m \<in> set (scan cond mk lines)" and "\<And>i l. pattern_type (mk i l) = t"
  shows "pattern_type m = t"
  using assms by (auto simp: scan_def)

subsection \<open>Loose equality\<close>

lemma lang_atom: "w \<in> rx_lang (Atom neg p) \<longleftrightarrow> (\<exists>c. w = [c] \<and> atom_matches neg p c)"
  by auto

lemma lang_atom_cat:
  "w \<in> rx_lang (Cat (Atom neg p) r) \<longleftrightarrow> (\<exists>c v. w = c # v \<and> atom_matches neg p c \<and> v \<in> rx_lang r)"
proof
  assume "w \<in> rx_lang (Cat (Atom neg p) r)"
  then obtain u v where "w = u @ v" "u \<in> rx_lang (Atom neg p)" "v \<in> rx_lang r" by auto
  then show "\<exists>c v. w = c # v \<and> atom_matches neg p c \<and> v \<in> rx_lang r" by auto
next
  assume "\<exists>c v. w = c # v \<and> atom_matches neg p c \<and> v \<in> rx_lang r"
  then obtain c v where "w = [c] @ v" "[c] \<in> rx_lang (Atom neg p)" "v \<in> rx_lang r" by auto
  then show "w \<in> rx_lang (Cat (Atom neg p) r)" unfolding rx_lang.simps by blast
qed

lemma loose_equality_lang:
  "rx_lang loose_equality_regex =
     {[a, CHR ''='', CHR ''='', b] | a b. a \<notin> set ''=!<>'' \<and> b \<noteq> CHR ''=''}"
  by (auto simp add: loose_equality_regex_def none_of_def lit_def atom_matches_def lang_atom_cat
      lang_atom set_eq_iff simp del: rx_lang.simps)

lemma loose_equality_search: "re_search loose_equality_regex line \<longleftrightarrow> loose_equality_shape line"
  unfolding re_search_iff loose_equality_lang loose_equality_shape_def by blast

lemma not_claimed: "\<not> claimed_loose_equality ''a==!b''"
proof
  assume "claimed_loose_equality ''a==!b''"
  then obtain u v where uv: "''a==!b'' = u @ ''=='' @ v"
    and f: "(case v of [] \<Rightarrow> True | b # v' \<Rightarrow> b \<notin> set ''=!<>'')"
    by (auto simp: claimed_loose_equality_def)
  from uv have "u = ''a'' \<and> v = ''!b''"
    by (auto simp: append_eq_Cons_conv Cons_eq_append_conv)
  then show False using f by simp
qed

text \<open>
  Claim C3 as stated: a \<open>loose_equality\<close> match is emitted exactly when the line
  contains \<open>==\<close> neither preceded nor followed by one of \<open>=\<close>, \<open>!\<close>, \<open><\<close>, \<open>>\<close>.
  The pattern excludes only \<open>=\<close> after the operator: the line \<open>a==!b\<close>, where \<open>!\<close>
  follows, yields a match.
\<close>

theorem loose_equality_counterexample:
  "detect_javascript_patterns ''a==!b'' =
     [\<lparr>pattern_type = ''loose_equality'', severity = ''minor'',
       message = ''Use === instead of == for strict equality'',
       line_number = 1, code_snippet = ''a==!b'', confidence = 8 / 10\<rparr>] \<and>
   \<not> claimed_loose_equality ''a==!b''"
proof -
  have "detect_javascript_patterns ''a==!b'' =
     [\<lparr>pattern_type = ''loose_equality'', severity = ''minor'',
       message = ''Use === instead of == for strict equality'',
       line_number = 1, code_snippet = ''a==!b'', confidence = 8 / 10\<rparr>]"
    by code_simp
  then show ?thesis using not_claimed by simp
qed

text \<open>
  Claim C3, amended: for every line of the code given to the JavaScript/TypeScript
  detector, a \<open>loose_equality\<close> match (severity minor, confidence 0.8) is emitted for
  that line exactly when the line contains two consecutive \<open>=\<close> immediately preceded
  by a character that is none of \<open>=\<close>, \<open>!\<close>, \<open><\<close>, \<open>>\<close> and immediately followed
  by a character that is not \<open>=\<close>.
\<close>

theorem loose_equality_detected:
  assumes "k < length (split_nl code)"
  shows "(\<exists>m\<in>set (detect_javascript_patterns code).
            pattern_type m = ''loose_equality'' \<and> line_number m = int k + 1 \<and>
            severity m = ''minor'' \<and> confidence m = 8 / 10)
         \<longleftrightarrow> loose_equality_shape (split_nl code ! k)"
proof
  assume "\<exists>m\<in>set (detect_javascript_patterns code).
            pattern_type m = ''loose_equality'' \<and> line_number m = int k + 1 \<and>
            severity m = ''minor'' \<and> confidence m = 8 / 10"
  then obtain m where m: "m \<in> set (detect_javascript_patterns code)"
    "pattern_type m = ''loose_equality''" "line_number m = int k + 1" by blast
  from m(1,2) obtain j where "j < length (split_nl code)"
    "re_search loose_equality_regex (split_nl code ! j)" "line_number m = int j + 1"
    by (auto simp: detect_javascript_patterns_def Let_def set_scan)
  then show "loose_equality_shape (split_nl code ! k)"
    using m(3) by (simp add: loose_equality_search)
next
  assume "loose_equality_shape (split_nl code ! k)"
  then have "re_search loose_equality_regex (split_nl code ! k)"
    by (simp add: loose_equality_search)
  then have "\<lparr>pattern_type = ''loose_equality'', severity = ''minor'',
              message = ''Use === instead of == for strict equality'',
              line_number = int k + 1, code_snippet = strip (split_nl code ! k),
              confidence = 8 / 10\<rparr> \<in> set (detect_javascript_patterns code)"
    using assms by (auto simp: detect_javascript_patterns_def Let_def set_scan)
  then show "\<exists>m\<in>set (detect_javascript_patterns code).
            pattern_type m = ''loose_equality'' \<and> line_number m = int k + 1 \<and>
            severity m = ''minor'' \<and> confidence m = 8 / 10"
    by force
qed

theorem loose_equality_detected_witness:
  "(0::nat) < length (split_nl ''a == b'') \<and> loose_equality_shape (split_nl ''a == b'' ! 0) \<and>
   (\<exists>m. m \<in> set (detect_javascript_patterns ''a == b'') \<and>
            pattern_type m = ''loose_equality'' \<and> line_number m = 1 \<and>
            severity m = ''minor'' \<and> confidence m = 8 / 10)"
proof -
  have l: "split_nl ''a == b'' = [''a == b'']" by code_simp
  have "''a == b'' = ''a'' @ [CHR '' '', CHR ''='', CHR ''='', CHR '' ''] @ ''b''" by simp
  then have s: "loose_equality_shape ''a == b''"
    unfolding loose_equality_shape_def by (intro exI conjI) (assumption, simp_all)
  show ?thesis using loose_equality_detected [of 0 "''a == b''"] l s by auto
qed

subsection \<open>The pattern types of the matches\<close>

lemma java_types:
  "m \<in> set (detect_java_patterns code) \<Longrightarrow>
   pattern_type m \<in> {''empty_catch'', ''catch_generic_exception'', ''console_logging''}"
  by (auto simp: detect_java_patterns_def Let_def scan_def)

lemma python_types:
  "m \<in> set (detect_python_patterns code) \<Longrightarrow>
   pattern_type m \<in> {''bare_except'', ''print_statement'', ''mutable_default_argument''}"
  by (auto simp: detect_python_patterns_def Let_def scan_def)

lemma javascript_types:
  "m \<in> set (detect_javascript_patterns code) \<Longrightarrow>
   pattern_type m \<in> {''console_log'', ''loose_equality'', ''var_keyword''}"
  by (auto simp: detect_javascript_patterns_def Let_def scan_def)

lemma universal_types:
  "m \<in> set (detect_universal_patterns patterns code) \<Longrightarrow>
   pattern_type m \<in> {''hardcoded_credentials'', ''todo_comment''}"
  by (auto simp: detect_universal_patterns_def Let_def scan_def split: if_splits)

text \<open>
  Claim C10: the rule table holds an entry \<open>sql_injection\<close>, and for every code text
  and every language tag no match returned by \<open>detect_patterns\<close> has the pattern type
  \<open>sql_injection\<close>: the universal scan applies only the entry
  \<open>hardcoded_credentials\<close> of the table.
\<close>

theorem no_sql_injection_match:
  "''sql_injection'' \<in> fst ` set load_patterns \<and>
   ''sql_injection'' \<notin> pattern_type ` set (detect_patterns code language path)"
proof
  show "''sql_injection'' \<in> fst ` set load_patterns"
    by (simp add: load_patterns_def)
next
  show "''sql_injection'' \<notin> pattern_type ` set (detect_patterns code language path)"
  proof
    assume "''sql_injection'' \<in> pattern_type ` set (detect_patterns code language path)"
    then obtain m where m: "m \<in> set (detect_patterns code language path)"
      "pattern_type m = ''sql_injection''" by force
    from m(1) have "pattern_type m \<in>
        {''empty_catch'', ''catch_generic_exception'', ''console_logging'',
         ''bare_except'', ''print_statement'', ''mutable_default_argument'',
         ''console_log'', ''loose_equality'', ''var_keyword'',
         ''hardcoded_credentials'', ''todo_comment''}"
      using java_types [of m code] python_types [of m code] javascript_types [of m code]
        universal_types [of m load_patterns code]
      by (auto simp: detect_patterns_def Let_def split: if_splits)
    then show False using m(2) by simp
  qed
qed

theorem no_sql_injection_match_witness:
  "re_search (ignorecase (fst (hd (cfg_patterns (snd (load_patterns ! 1)))))) sql_line \<and>
   fst (load_patterns ! 1) = ''sql_injection'' \<and>
   ''sql_injection'' \<notin> pattern_type ` set (detect_patterns sql_line ''python'' [])"
proof -
  have a: "re_search (ignorecase (fst (hd (cfg_patterns (snd (load_patterns ! 1)))))) sql_line"
    by code_simp
  have b: "fst (load_patterns ! 1) = ''sql_injection''"
    by code_simp
  show ?thesis using no_sql_injection_match [of sql_line "''python''" "[]"] a b by simp
qed

end
